theory Spec2Isabelle
  imports Main "HOL-Library.Sublist" "HOL-Library.AList"
begin

section \<open>Paths\<close>

text \<open>
  A \<^verbatim>\<open>pathlib.Path\<close> is its list of components, relative to the working directory;
  the empty list is the working directory itself. \<open>Path\<close> parses a string the way the
  POSIX flavour does: it splits at the separator and drops empty and \<^verbatim>\<open>.\<close> components; a
  leading separator is kept as the root component.
\<close>

type_synonym path = "string list"

fun split_sep :: "char \<Rightarrow> string \<Rightarrow> string list" where
  "split_sep sep [] = [[]]"
| "split_sep sep (c # cs) =
     (if c = sep then [] # split_sep sep cs
      else (case split_sep sep cs of [] \<Rightarrow> [[c]] | w # ws \<Rightarrow> (c # w) # ws))"

definition Path :: "string \<Rightarrow> path" where
  "Path s =
     (if s \<noteq> [] \<and> hd s = CHR ''/'' then [''/''] else [])
     @ filter (\<lambda>c. c \<noteq> [] \<and> c \<noteq> ''.'') (split_sep (CHR ''/'') s)"

text \<open>\<^verbatim>\<open>Path.name\<close>: the final component, empty for the working directory and for the root.\<close>

definition name :: "path \<Rightarrow> string" where
  "name p = (if p = [] \<or> p = [''/''] then [] else last p)"

text \<open>\<^verbatim>\<open>str.rfind\<close>: the index of the last occurrence, \<open>None\<close> for Python's \<^verbatim>\<open>-1\<close>.\<close>

fun rfind :: "char \<Rightarrow> string \<Rightarrow> nat option" where
  "rfind c [] = None"
| "rfind c (x # xs) =
     (case rfind c xs of
        Some i \<Rightarrow> Some (Suc i)
      | None \<Rightarrow> if x = c then Some 0 else None)"

text \<open>
  \<^verbatim>\<open>Path.suffix\<close> and \<^verbatim>\<open>Path.stem\<close>: the name is cut at its last dot, unless that dot is
  the first or the last character of the name.
\<close>

definition suffix_of :: "path \<Rightarrow> string" where
  "suffix_of p =
     (case rfind (CHR ''.'') (name p) of
        None \<Rightarrow> []
      | Some i \<Rightarrow> if 0 < i \<and> i < length (name p) - 1 then drop i (name p) else [])"

definition stem :: "path \<Rightarrow> string" where
  "stem p =
     (case rfind (CHR ''.'') (name p) of
        None \<Rightarrow> name p
      | Some i \<Rightarrow> if 0 < i \<and> i < length (name p) - 1 then take i (name p) else name p)"

text \<open>\<^verbatim>\<open>str(path)\<close>: the components joined by the separator.\<close>

fun join_sep :: "string list \<Rightarrow> string" where
  "join_sep [] = []"
| "join_sep [c] = c"
| "join_sep (c # d # ds) = c @ ''/'' @ join_sep (d # ds)"

definition str_of :: "path \<Rightarrow> string" where
  "str_of p =
     (case p of
        [] \<Rightarrow> ''.''
      | c # cs \<Rightarrow> if c = ''/'' then ''/'' @ join_sep cs else join_sep (c # cs))"

section \<open>Glob patterns\<close>

text \<open>
  \<^verbatim>\<open>str.upper\<close> on the ASCII letters, and the case folding that a case-insensitive path
  flavour applies before matching.
\<close>

definition ascii_lowercase :: string where
  "ascii_lowercase = ''abcdefghijklmnopqrstuvwxyz''"

definition ascii_uppercase :: string where
  "ascii_uppercase = ''ABCDEFGHIJKLMNOPQRSTUVWXYZ''"

definition upper_char :: "char \<Rightarrow> char" where
  "upper_char c =
     (case map_of (zip ascii_lowercase ascii_uppercase) c of None \<Rightarrow> c | Some u \<Rightarrow> u)"

definition lower_char :: "char \<Rightarrow> char" where
  "lower_char c =
     (case map_of (zip ascii_uppercase ascii_lowercase) c of None \<Rightarrow> c | Some l \<Rightarrow> l)"

definition upper :: "string \<Rightarrow> string" where
  "upper s = map upper_char s"

definition lower :: "string \<Rightarrow> string" where
  "lower s = map lower_char s"

text \<open>
  Shell-style matching of one name against one pattern: \<^verbatim>\<open>*\<close> stands for any run of
  characters, \<^verbatim>\<open>?\<close> for one character, anything else for itself. (Bracket classes are
  left out: the patterns of this program have none.)
\<close>

fun fnmatch :: "string \<Rightarrow> string \<Rightarrow> bool" where
  "fnmatch [] s = (s = [])"
| "fnmatch (p # ps) [] = (p = CHR ''*'' \<and> fnmatch ps [])"
| "fnmatch (p # ps) (c # cs) =
     (if p = CHR ''*'' then fnmatch ps (c # cs) \<or> fnmatch (p # ps) cs
      else if p = CHR ''?'' then fnmatch ps cs
      else p = c \<and> fnmatch ps cs)"

definition matches :: "bool \<Rightarrow> string \<Rightarrow> string \<Rightarrow> bool" where
  "matches sensitive pat nm =
     (if sensitive then fnmatch pat nm else fnmatch (lower pat) (lower nm))"

section \<open>The file system, the console and the collaborators\<close>

datatype content = Video string | Audio string | Text string string | Blob string

datatype node = Dir | File content

text \<open>One constructor for each \<^verbatim>\<open>print\<close> of the program, with the values it formats.\<close>

datatype message =
    Msg_loading_model string
  | Msg_local_model_found path
  | Msg_local_model_missing path
  | Msg_downloading
  | Msg_extracting string
  | Msg_audio_saved path
  | Msg_extract_error string
  | Msg_transcribing string
  | Msg_transcribe_error string
  | Msg_text_saved path
  | Msg_save_error string
  | Msg_processing string
  | Msg_success string
  | Msg_video_error string string
  | Msg_temp_deleted string
  | Msg_no_videos path
  | Msg_formats "string list"
  | Msg_found nat
  | Msg_done path
  | Msg_file_not_found path
  | Msg_interrupted
  | Msg_critical string

text \<open>What the program does to the outside, in order: what it prints and what it calls.\<close>

datatype event =
    Print message
  | Load_model string
  | Write_audiofile path path
  | Transcribe path
  | Open_write path string
  | Unlink path

text \<open>
  The directory tree is an association list from paths to nodes, in the order in which
  the operating system enumerates it; it lists what exists, apart from the working
  directory itself. \<open>locked\<close> holds the paths whose removal the
  operating system refuses (a file that another handle keeps open, a read-only directory).
\<close>

record world =
  nodes :: "(path \<times> node) list"
  locked :: "path set"
  trace :: "event list"

datatype exn = Exception string | KeyboardInterrupt | SystemExit nat

datatype 'a result = Returned 'a | Raised exn

text \<open>
  A call into a library either fails with an exception of class \<^verbatim>\<open>Exception\<close> and a
  message, or is cut short by the user's interrupt.
\<close>

datatype fault = Failure string | Interrupt

definition raise_of :: "fault \<Rightarrow> exn" where
  "raise_of f = (case f of Failure m \<Rightarrow> Exception m | Interrupt \<Rightarrow> KeyboardInterrupt)"

text \<open>
  Printing never fails, the progress bar of the batch loop is left out, and the user's
  interrupt arrives during a library call.
  What a library call does is not in this repository, so it is a parameter:
  loading a model yields a handle; writing the audio track yields the waveform, or a
  fault and the partial file left behind, if any; transcription yields the text; opening
  and writing the transcript succeeds, or yields a fault and what is left at the path
  (\<open>None\<close> when the file could not be opened, the text written so far otherwise).
  \<open>set_iter\<close> is the order in which the interpreter enumerates a set with the given
  elements, and \<open>case_sensitive\<close> tells whether the path flavour matches names exactly.
\<close>

datatype extraction = Extracted string | Extract_failed fault "string option"

datatype writing = Written | Write_failed fault "string option"

record env =
  load_model :: "string \<Rightarrow> fault + nat"
  write_audiofile :: "(path \<times> node) list \<Rightarrow> path \<Rightarrow> path \<Rightarrow> extraction"
  transcribe :: "nat \<Rightarrow> (path \<times> node) list \<Rightarrow> path \<Rightarrow> fault + string"
  open_write :: "(path \<times> node) list \<Rightarrow> path \<Rightarrow> string \<Rightarrow> writing"
  set_iter :: "string list \<Rightarrow> string list"
  case_sensitive :: bool

definition emit :: "event \<Rightarrow> world \<Rightarrow> world" where
  "emit e w = w\<lparr>trace := trace w @ [e]\<rparr>"

definition put :: "path \<Rightarrow> node \<Rightarrow> world \<Rightarrow> world" where
  "put p n w = w\<lparr>nodes := AList.update p n (nodes w)\<rparr>"

text \<open>\<^verbatim>\<open>Path.exists\<close>, \<^verbatim>\<open>Path.mkdir(exist_ok=True)\<close> and \<^verbatim>\<open>Path.unlink\<close>.\<close>

definition path_exists :: "world \<Rightarrow> path \<Rightarrow> bool" where
  "path_exists w p = (p = [] \<or> map_of (nodes w) p \<noteq> None)"

definition mkdir :: "path \<Rightarrow> world \<Rightarrow> unit result \<times> world" where
  "mkdir p w =
     (if p = [] then (Returned (), w)
      else case map_of (nodes w) p of
        None \<Rightarrow> (Returned (), put p Dir w)
      | Some Dir \<Rightarrow> (Returned (), w)
      | Some (File c) \<Rightarrow> (Raised (Exception ''FileExistsError''), w))"

definition unlink :: "path \<Rightarrow> world \<Rightarrow> unit result \<times> world" where
  "unlink p w =
     (let w1 = emit (Unlink p) w in
      case map_of (nodes w1) p of
        None \<Rightarrow> (Raised (Exception ''FileNotFoundError''), w1)
      | Some Dir \<Rightarrow> (Raised (Exception ''IsADirectoryError''), w1)
      | Some (File c) \<Rightarrow>
          if p \<in> locked w1 then (Raised (Exception ''PermissionError''), w1)
          else (Returned (), w1\<lparr>nodes := AList.delete p (nodes w1)\<rparr>))"

section \<open>VideoToTextConverter\<close>

record converter =
  model :: nat
  data_dir :: path
  output_dir :: path

text \<open>
  \<^verbatim>\<open>__init__\<close>: the model is loaded from \<^verbatim>\<open>whisper/<model_name>.pt\<close> when that path
  exists and by name otherwise; then both directories are created if missing.
\<close>

definition init :: "env \<Rightarrow> string \<Rightarrow> world \<Rightarrow> converter result \<times> world" where
  "init ev model_name w =
     (let w1 = emit (Print (Msg_loading_model model_name)) w;
          local_model_path = [''whisper'', model_name @ ''.pt''];
          arg = (if path_exists w1 local_model_path then str_of local_model_path else model_name);
          w2 = (if path_exists w1 local_model_path
                then emit (Print (Msg_local_model_found local_model_path)) w1
                else emit (Print Msg_downloading)
                       (emit (Print (Msg_local_model_missing local_model_path)) w1));
          w3 = emit (Load_model arg) w2
      in case load_model ev arg of
           Inl f \<Rightarrow> (Raised (raise_of f), w3)
         | Inr m \<Rightarrow>
             (case mkdir [''data''] w3 of
                (Raised e, w4) \<Rightarrow> (Raised e, w4)
              | (Returned u, w4) \<Rightarrow>
                  (case mkdir [''output''] w4 of
                     (Raised e, w5) \<Rightarrow> (Raised e, w5)
                   | (Returned u', w5) \<Rightarrow>
                       (Returned \<lparr>model = m, data_dir = [''data''], output_dir = [''output'']\<rparr>,
                        w5))))"

text \<open>
  The handler \<^verbatim>\<open>except Exception as e: print(...); raise\<close> of the three steps: it
  prints for an \<^verbatim>\<open>Exception\<close> and lets everything through.
\<close>

definition reported :: "(string \<Rightarrow> message) \<Rightarrow> fault \<Rightarrow> world \<Rightarrow> world" where
  "reported msg f w = (case f of Failure m \<Rightarrow> emit (Print (msg m)) w | Interrupt \<Rightarrow> w)"

definition extract_audio ::
  "env \<Rightarrow> converter \<Rightarrow> path \<Rightarrow> path \<Rightarrow> world \<Rightarrow> unit result \<times> world" where
  "extract_audio ev conv video_path audio_path w =
     (let w1 = emit (Write_audiofile video_path audio_path)
                 (emit (Print (Msg_extracting (name video_path))) w)
      in case write_audiofile ev (nodes w1) video_path audio_path of
           Extracted wav \<Rightarrow>
             (Returned (), emit (Print (Msg_audio_saved audio_path))
                             (put audio_path (File (Audio wav)) w1))
         | Extract_failed f left \<Rightarrow>
             (Raised (raise_of f),
              reported Msg_extract_error f
                (case left of None \<Rightarrow> w1 | Some wav \<Rightarrow> put audio_path (File (Audio wav)) w1)))"

definition transcribe_audio ::
  "env \<Rightarrow> converter \<Rightarrow> path \<Rightarrow> world \<Rightarrow> string result \<times> world" where
  "transcribe_audio ev conv audio_path w =
     (let w1 = emit (Transcribe audio_path)
                 (emit (Print (Msg_transcribing (name audio_path))) w)
      in case transcribe ev (model conv) (nodes w1) audio_path of
           Inr text \<Rightarrow> (Returned text, w1)
         | Inl f \<Rightarrow> (Raised (raise_of f), reported Msg_transcribe_error f w1))"

definition save_text ::
  "env \<Rightarrow> converter \<Rightarrow> string \<Rightarrow> path \<Rightarrow> world \<Rightarrow> unit result \<times> world" where
  "save_text ev conv text output_path w =
     (let w1 = emit (Open_write output_path text) w
      in case open_write ev (nodes w1) output_path text of
           Written \<Rightarrow>
             (Returned (), emit (Print (Msg_text_saved output_path))
                             (put output_path (File (Text ''utf-8'' text)) w1))
         | Write_failed f left \<Rightarrow>
             (Raised (raise_of f),
              reported Msg_save_error f
                (case left of
                   None \<Rightarrow> w1
                 | Some part \<Rightarrow> put output_path (File (Text ''utf-8'' part)) w1)))"

text \<open>
  \<^verbatim>\<open>process_video\<close>. \<open>audio_path\<close> and \<open>text_path\<close> are the two names built from the
  stem; \<open>steps\<close> is the body of the \<^verbatim>\<open>try\<close>, \<open>except_clause\<close> the handler
  \<^verbatim>\<open>except Exception\<close>, \<open>finally_clause\<close> the \<^verbatim>\<open>finally\<close> block. An exception raised
  inside \<^verbatim>\<open>finally\<close> replaces the one that was on its way out.
\<close>

definition audio_path :: "converter \<Rightarrow> path \<Rightarrow> path" where
  "audio_path conv video_path = output_dir conv @ [stem video_path @ ''_temp.wav'']"

definition text_path :: "converter \<Rightarrow> path \<Rightarrow> path" where
  "text_path conv video_path = output_dir conv @ [stem video_path @ ''.txt'']"

definition steps :: "env \<Rightarrow> converter \<Rightarrow> path \<Rightarrow> world \<Rightarrow> unit result \<times> world" where
  "steps ev conv video_path w =
     (case extract_audio ev conv video_path (audio_path conv video_path) w of
        (Raised e, w1) \<Rightarrow> (Raised e, w1)
      | (Returned u, w1) \<Rightarrow>
          (case transcribe_audio ev conv (audio_path conv video_path) w1 of
             (Raised e, w2) \<Rightarrow> (Raised e, w2)
           | (Returned text, w2) \<Rightarrow>
               (case save_text ev conv text (text_path conv video_path) w2 of
                  (Raised e, w3) \<Rightarrow> (Raised e, w3)
                | (Returned u', w3) \<Rightarrow>
                    (Returned (), emit (Print (Msg_success (name video_path))) w3))))"

definition except_clause :: "path \<Rightarrow> unit result \<times> world \<Rightarrow> unit result \<times> world" where
  "except_clause video_path rw =
     (case rw of
        (Raised (Exception m), w) \<Rightarrow>
          (Returned (), emit (Print (Msg_video_error (name video_path) m)) w)
      | (r, w) \<Rightarrow> (r, w))"

definition finally_clause :: "path \<Rightarrow> unit result \<times> world \<Rightarrow> unit result \<times> world" where
  "finally_clause apath rw =
     (case rw of (r, w) \<Rightarrow>
        if path_exists w apath then
          (case unlink apath w of
             (Raised e, w1) \<Rightarrow> (Raised e, w1)
           | (Returned u, w1) \<Rightarrow> (r, emit (Print (Msg_temp_deleted (name apath))) w1))
        else (r, w))"

definition process_video :: "env \<Rightarrow> converter \<Rightarrow> path \<Rightarrow> world \<Rightarrow> unit result \<times> world" where
  "process_video ev conv video_path w =
     finally_clause (audio_path conv video_path)
       (except_clause video_path
          (steps ev conv video_path (emit (Print (Msg_processing (name video_path))) w)))"

text \<open>
  \<^verbatim>\<open>process_all_videos\<close>: two globs for each extension of the set, one with the
  extension as written and one with it in upper case; \<open>glob\<close> lists the entries of the
  directory whose name matches. The loop stops at the first exception that leaves
  \<open>process_video\<close>.
\<close>

definition video_extensions :: "string list" where
  "video_extensions = [''.mp4'', ''.avi'', ''.mov'', ''.mkv'', ''.wmv'', ''.flv'', ''.webm'']"

definition glob :: "bool \<Rightarrow> (path \<times> node) list \<Rightarrow> path \<Rightarrow> string \<Rightarrow> path list" where
  "glob sensitive nds dir pat =
     map fst (filter (\<lambda>(p, n). p \<noteq> [] \<and> butlast p = dir \<and> matches sensitive pat (last p)) nds)"

definition video_files :: "env \<Rightarrow> converter \<Rightarrow> world \<Rightarrow> path list" where
  "video_files ev conv w =
     concat (map (\<lambda>ext. glob (case_sensitive ev) (nodes w) (data_dir conv) (''*'' @ ext)
                       @ glob (case_sensitive ev) (nodes w) (data_dir conv) (''*'' @ upper ext))
                 (set_iter ev video_extensions))"

fun for_each :: "env \<Rightarrow> converter \<Rightarrow> path list \<Rightarrow> world \<Rightarrow> unit result \<times> world" where
  "for_each ev conv [] w = (Returned (), w)"
| "for_each ev conv (video_path # rest) w =
     (case process_video ev conv video_path w of
        (Raised e, w1) \<Rightarrow> (Raised e, w1)
      | (Returned u, w1) \<Rightarrow> for_each ev conv rest w1)"

definition process_all_videos :: "env \<Rightarrow> converter \<Rightarrow> world \<Rightarrow> unit result \<times> world" where
  "process_all_videos ev conv w =
     (if video_files ev conv w = [] then
        (Returned (),
         emit (Print (Msg_formats (set_iter ev video_extensions)))
           (emit (Print (Msg_no_videos (data_dir conv))) w))
      else
        (case for_each ev conv (video_files ev conv w)
                (emit (Print (Msg_found (length (video_files ev conv w)))) w) of
           (Raised e, w1) \<Rightarrow> (Raised e, w1)
         | (Returned u, w1) \<Rightarrow> (Returned (), emit (Print (Msg_done (output_dir conv))) w1)))"

section \<open>main\<close>

record args =
  model_name :: string
  file_arg :: "string option"

text \<open>\<^verbatim>\<open>if args.file:\<close> holds for a string that is present and not empty.\<close>

definition truthy :: "string option \<Rightarrow> bool" where
  "truthy f = (case f of None \<Rightarrow> False | Some s \<Rightarrow> s \<noteq> [])"

text \<open>
  \<open>main_try\<close> is the body of the \<^verbatim>\<open>try\<close> of \<^verbatim>\<open>main\<close> (\<^verbatim>\<open>sys.exit(1)\<close> raises
  \<^verbatim>\<open>SystemExit\<close>), \<open>main\<close> adds the two handlers, and \<open>exit_code\<close> is the status with
  which the interpreter ends.
\<close>

definition main_try :: "env \<Rightarrow> args \<Rightarrow> world \<Rightarrow> unit result \<times> world" where
  "main_try ev a w =
     (case init ev (model_name a) w of
        (Raised e, w1) \<Rightarrow> (Raised e, w1)
      | (Returned converter, w1) \<Rightarrow>
          if truthy (file_arg a) then
            (let video_path = Path (the (file_arg a)) in
             if \<not> path_exists w1 video_path then
               (Raised (SystemExit 1), emit (Print (Msg_file_not_found video_path)) w1)
             else process_video ev converter video_path w1)
          else process_all_videos ev converter w1)"

definition main :: "env \<Rightarrow> args \<Rightarrow> world \<Rightarrow> unit result \<times> world" where
  "main ev a w =
     (case main_try ev a w of
        (Raised KeyboardInterrupt, w1) \<Rightarrow> (Returned (), emit (Print Msg_interrupted) w1)
      | (Raised (Exception m), w1) \<Rightarrow> (Raised (SystemExit 1), emit (Print (Msg_critical m)) w1)
      | (r, w1) \<Rightarrow> (r, w1))"

definition exit_code :: "unit result \<Rightarrow> nat" where
  "exit_code r =
     (case r of Returned u \<Rightarrow> 0 | Raised (SystemExit n) \<Rightarrow> n | Raised e \<Rightarrow> 1)"

section \<open>Notions used in the statements\<close>

text \<open>
  The fourteen endings that \<open>video_files\<close> globs for; the cases in which \<open>unlink\<close>
  raises on a path that exists (\<open>refuses w p\<close>: the operating system will not delete
  \<open>p\<close>); the events that a run adds to the trace, with tests for the kind of an event;
  and \<open>loads_nothing w w'\<close>: the trace of \<open>w'\<close> continues that of \<open>w\<close> without loading
  a model.
\<close>

definition patterns :: "string list" where
  "patterns = video_extensions @ map upper video_extensions"

definition refuses :: "world \<Rightarrow> path \<Rightarrow> bool" where
  "refuses w p = (map_of (nodes w) p = Some Dir \<or> p \<in> locked w)"

definition new_events :: "world \<Rightarrow> world \<Rightarrow> event list" where
  "new_events w w' = drop (length (trace w)) (trace w')"

definition is_load_model :: "event \<Rightarrow> bool" where
  "is_load_model e = (case e of Load_model s \<Rightarrow> True | _ \<Rightarrow> False)"

definition is_transcribe :: "event \<Rightarrow> bool" where
  "is_transcribe e = (case e of Transcribe p \<Rightarrow> True | _ \<Rightarrow> False)"

definition is_open_write :: "event \<Rightarrow> bool" where
  "is_open_write e = (case e of Open_write p t \<Rightarrow> True | _ \<Rightarrow> False)"

definition loads_nothing :: "world \<Rightarrow> world \<Rightarrow> bool" where
  "loads_nothing w w' =
     (prefix (trace w) (trace w') \<and> (\<forall>e \<in> set (new_events w w'). \<not> is_load_model e))"

text \<open>
  Shorthands for the statements: \<open>attempt\<close> is \<open>process_video\<close> up to the end of the
  \<^verbatim>\<open>try\<close> body; \<open>extraction\<close>, \<open>transcription\<close> and \<open>persistence\<close> are what the three
  library calls of one video answer; \<open>model_source\<close> is what \<open>init\<close> passes to the
  loader; \<open>cleanup_refused\<close> says that the file exists and cannot be deleted.
\<close>

definition attempt :: "env \<Rightarrow> converter \<Rightarrow> path \<Rightarrow> world \<Rightarrow> unit result \<times> world" where
  "attempt ev conv v w = steps ev conv v (emit (Print (Msg_processing (name v))) w)"

definition extraction :: "env \<Rightarrow> converter \<Rightarrow> path \<Rightarrow> world \<Rightarrow> extraction" where
  "extraction ev conv v w = write_audiofile ev (nodes w) v (audio_path conv v)"

definition transcription :: "env \<Rightarrow> converter \<Rightarrow> path \<Rightarrow> string \<Rightarrow> world \<Rightarrow> fault + string" where
  "transcription ev conv v wav w =
     transcribe ev (model conv)
       (AList.update (audio_path conv v) (File (Audio wav)) (nodes w)) (audio_path conv v)"

definition persistence ::
  "env \<Rightarrow> converter \<Rightarrow> path \<Rightarrow> string \<Rightarrow> string \<Rightarrow> world \<Rightarrow> writing" where
  "persistence ev conv v wav t w =
     open_write ev (AList.update (audio_path conv v) (File (Audio wav)) (nodes w))
       (text_path conv v) t"

definition model_source :: "world \<Rightarrow> string \<Rightarrow> string" where
  "model_source w nm =
     (if path_exists w [''whisper'', nm @ ''.pt''] then ''whisper/'' @ nm @ ''.pt'' else nm)"

definition cleanup_refused :: "world \<Rightarrow> path \<Rightarrow> bool" where
  "cleanup_refused w p = (path_exists w p \<and> refuses w p)"

section \<open>Concrete runs\<close>

text \<open>
  Collaborators: \<open>ev_ok\<close> always succeeds; with \<open>ev_partial\<close> the extraction fails and
  leaves a partial file; with \<open>ev_mute\<close> the transcription fails; with \<open>ev_int\<close> the
  user interrupts the transcription. \<open>conv0\<close> is the converter that \<open>init\<close> builds.
\<close>

definition ev_ok :: env where
  "ev_ok = \<lparr>load_model = (\<lambda>s. Inr 0),
            write_audiofile = (\<lambda>nds v a. Extracted ''wave''),
            transcribe = (\<lambda>m nds a. Inr ''hello''),
            open_write = (\<lambda>nds p t. Written),
            set_iter = (\<lambda>xs. xs),
            case_sensitive = True\<rparr>"

definition ev_partial :: env where
  "ev_partial =
     ev_ok\<lparr>write_audiofile := (\<lambda>nds v a. Extract_failed (Failure ''bad container'') (Some ''part''))\<rparr>"

definition ev_mute :: env where
  "ev_mute = ev_ok\<lparr>transcribe := (\<lambda>m nds a. Inl (Failure ''no speech''))\<rparr>"


definition conv0 :: converter where
  "conv0 = \<lparr>model = 0, data_dir = [''data''], output_dir = [''output'']\<rparr>"

text \<open>
  Working directories: \<open>demo_world\<close> has two videos and a text file in \<^verbatim>\<open>data/\<close>;
  \<open>mixed_world\<close> has one video whose extension is in mixed case; in \<open>locked_world\<close>
  the deletion of \<^verbatim>\<open>output/talk_temp.wav\<close> is refused; \<open>rerun_world\<close> already holds a
  transcript of the first video; \<open>cached_world\<close> holds a local copy of the model.
\<close>

definition talk :: path where
  "talk = [''data'', ''talk.mp4'']"

definition clip :: path where
  "clip = [''data'', ''clip.MP4'']"


definition demo_world :: world where
  "demo_world =
     \<lparr>nodes = [([''data''], Dir), ([''output''], Dir),
               ([''data'', ''talk.mp4''], File (Video ''v1'')),
               ([''data'', ''clip.MP4''], File (Video ''v2'')),
               ([''data'', ''notes.txt''], File (Text ''utf-8'' ''n''))],
      locked = {}, trace = []\<rparr>"


definition locked_world :: world where
  "locked_world = demo_world\<lparr>locked := {[''output'', ''talk_temp.wav'']}\<rparr>"

definition rerun_world :: world where
  "rerun_world =
     demo_world\<lparr>nodes := nodes demo_world @ [([''output'', ''talk.txt''], File (Text ''utf-8'' ''old''))]\<rparr>"

definition cached_world :: world where
  "cached_world =
     demo_world\<lparr>nodes := nodes demo_world @ [([''whisper'', ''base.pt''], File (Blob ''weights''))]\<rparr>"

text \<open>Command lines: a batch over \<^verbatim>\<open>data/\<close>, a file that is missing, a file that is no video.\<close>

definition args_batch :: args where
  "args_batch = \<lparr>model_name = ''base'', file_arg = None\<rparr>"


definition args_notes :: args where
  "args_notes = \<lparr>model_name = ''base'', file_arg = Some ''data/notes.txt''\<rparr>"

section \<open>Input discovery\<close>

lemmas shorthand =
  attempt_def extraction_def transcription_def persistence_def model_source_def
  cleanup_refused_def



lemma patterns_eval:
  "patterns = [''.mp4'', ''.avi'', ''.mov'', ''.mkv'', ''.wmv'', ''.flv'', ''.webm'',
               ''.MP4'', ''.AVI'', ''.MOV'', ''.MKV'', ''.WMV'', ''.FLV'', ''.WEBM'']"
  by (simp add: patterns_def video_extensions_def upper_def upper_char_def
        ascii_lowercase_def ascii_uppercase_def)





















section \<open>Worlds\<close>

lemma emit_simps [simp]:
  "nodes (emit e w) = nodes w" "locked (emit e w) = locked w" "trace (emit e w) = trace w @ [e]"
  by (simp_all add: emit_def)

lemma put_simps [simp]:
  "nodes (put p n w) = AList.update p n (nodes w)" "locked (put p n w) = locked w"
  "trace (put p n w) = trace w"
  by (simp_all add: put_def)

lemma reported_simps [simp]:
  "nodes (reported msg f w) = nodes w" "locked (reported msg f w) = locked w"
  by (simp_all add: reported_def split: fault.splits)

lemma path_exists_emit [simp]: "path_exists (emit e w) p = path_exists w p"
  by (simp add: path_exists_def)

lemma refuses_emit [simp]: "refuses (emit e w) p = refuses w p"
  by (simp add: refuses_def)

lemma audio_path_nonempty [simp]: "audio_path conv v \<noteq> []"
  by (simp add: audio_path_def)

lemma text_path_nonempty [simp]: "text_path conv v \<noteq> []"
  by (simp add: text_path_def)

lemma audio_text_differ [simp]: "audio_path conv v \<noteq> text_path conv v"
proof
  assume "audio_path conv v = text_path conv v"
  then have "stem v @ ''_temp.wav'' = stem v @ ''.txt''"
    by (simp add: audio_path_def text_path_def)
  then show False by simp
qed

section \<open>The finally block\<close>

lemma unlink_refused:
  assumes "path_exists w p" and "p \<noteq> []" and "refuses w p"
  shows "\<exists>m. unlink p w = (Raised (Exception m), emit (Unlink p) w)"
  using assms
  by (auto simp: unlink_def path_exists_def refuses_def Let_def split: option.splits node.splits)

lemma unlink_done:
  assumes "path_exists w p" and "p \<noteq> []" and "\<not> refuses w p"
  shows "unlink p w = (Returned (), (emit (Unlink p) w)\<lparr>nodes := AList.delete p (nodes w)\<rparr>)"
  using assms
  by (auto simp: unlink_def path_exists_def refuses_def Let_def split: option.splits node.splits)

lemma finally_refused:
  assumes "path_exists w p" and "p \<noteq> []" and "refuses w p"
  shows "\<exists>m. finally_clause p (r, w) = (Raised (Exception m), emit (Unlink p) w)"
proof -
  from unlink_refused [OF assms] obtain m
    where "unlink p w = (Raised (Exception m), emit (Unlink p) w)" ..
  with assms(1) show ?thesis by (simp add: finally_clause_def)
qed

lemma finally_deleted:
  assumes "path_exists w p" and "p \<noteq> []" and "\<not> refuses w p"
  shows "finally_clause p (r, w) =
           (r, emit (Print (Msg_temp_deleted (name p)))
                 ((emit (Unlink p) w)\<lparr>nodes := AList.delete p (nodes w)\<rparr>))"
  using assms(1) by (simp add: finally_clause_def unlink_done [OF assms])

lemma finally_absent:
  "\<not> path_exists w p \<Longrightarrow> finally_clause p (r, w) = (r, w)"
  by (simp add: finally_clause_def)

lemma finally_survivor:
  assumes "p \<noteq> []" and "finally_clause p (r, w) = (r', w')" and "path_exists w' p"
  shows "refuses w' p \<and> (\<exists>m. r' = Raised (Exception m))"
proof (cases "path_exists w p")
  case False
  with assms show ?thesis by (simp add: finally_absent)
next
  case True
  show ?thesis
  proof (cases "refuses w p")
    case False
    with True assms(1,2) have "map_of (nodes w') p = None"
      by (auto simp: finally_deleted delete_conv')
    with assms(1,3) show ?thesis by (simp add: path_exists_def)
  next
    case refused: True
    from finally_refused [OF True assms(1) refused, of r] assms(2) refused
    show ?thesis by auto
  qed
qed

text \<open>
  Claim C4, as amended. Whatever the three steps did, the intermediate audio file is
  gone after \<open>process_video\<close> unless the operating system refused to delete it; in that
  case \<open>process_video\<close> does not return but raises the deletion error.
\<close>

theorem artifact_survives_only_refused_deletion:
  assumes "path_exists (snd (process_video ev conv v w)) (audio_path conv v)"
  shows "refuses (snd (process_video ev conv v w)) (audio_path conv v)
         \<and> (\<exists>m. fst (process_video ev conv v w) = Raised (Exception m))"
proof -
  obtain r0 w0 where mid: "except_clause v
      (steps ev conv v (emit (Print (Msg_processing (name v))) w)) = (r0, w0)"
    by (cases "except_clause v (steps ev conv v (emit (Print (Msg_processing (name v))) w))")
  then have "process_video ev conv v w = finally_clause (audio_path conv v) (r0, w0)"
    by (simp add: process_video_def)
  moreover obtain r' w' where "finally_clause (audio_path conv v) (r0, w0) = (r', w')"
    by (cases "finally_clause (audio_path conv v) (r0, w0)")
  ultimately show ?thesis
    using assms finally_survivor [of "audio_path conv v" r0 w0 r' w'] by simp
qed

theorem artifact_survives_only_refused_deletion_witness:
  "path_exists (snd (process_video ev_partial conv0 talk locked_world)) (audio_path conv0 talk)
   \<and> refuses (snd (process_video ev_partial conv0 talk locked_world)) (audio_path conv0 talk)
   \<and> (\<exists>m. fst (process_video ev_partial conv0 talk locked_world) = Raised (Exception m))"
proof -
  have h: "path_exists (snd (process_video ev_partial conv0 talk locked_world))
             (audio_path conv0 talk)"
    by code_simp
  from h artifact_survives_only_refused_deletion [OF h] show ?thesis by simp
qed

text \<open>
  Claim C4 as stated fails: all three steps succeed for \<^verbatim>\<open>data/talk.mp4\<close>, the deletion of
  \<^verbatim>\<open>output/talk_temp.wav\<close> is refused, and the file is still there afterwards.
\<close>

theorem artifact_left_behind_counterexample:
  "Print (Msg_success ''talk.mp4'') \<in> set (trace (snd (process_video ev_ok conv0 talk locked_world)))
   \<and> path_exists (snd (process_video ev_ok conv0 talk locked_world))
        [''output'', ''talk_temp.wav'']"
  by code_simp

section \<open>The batch loop and the top level\<close>

lemma for_each_append:
  "for_each ev conv (xs @ ys) w =
     (case for_each ev conv xs w of
        (Raised e, w1) \<Rightarrow> (Raised e, w1)
      | (Returned u, w1) \<Rightarrow> for_each ev conv ys w1)"
  by (induction xs arbitrary: w) (auto split: prod.splits result.splits)

lemma for_each_stops:
  assumes "for_each ev conv pre w = (Returned (), w1)"
    and "process_video ev conv v w1 = (Raised e, w2)"
  shows "for_each ev conv (pre @ v # rest) w = (Raised e, w2)"
  using assms by (simp add: for_each_append)

lemma process_video_finally:
  assumes "except_clause v (steps ev conv v (emit (Print (Msg_processing (name v))) w)) = (r, w1)"
  shows "process_video ev conv v w = finally_clause (audio_path conv v) (r, w1)"
  using assms by (simp add: process_video_def)

lemma main_critical:
  assumes "main_try ev a w = (Raised (Exception m), w1)"
  shows "main ev a w = (Raised (SystemExit 1), emit (Print (Msg_critical m)) w1)"
  using assms by (simp add: main_def)


lemma main_try_batch:
  assumes "init ev (model_name a) w = (Returned conv, w1)" and "\<not> truthy (file_arg a)"
  shows "main_try ev a w = process_all_videos ev conv w1"
  using assms by (simp add: main_try_def)

lemma process_all_raised:
  assumes "video_files ev conv w \<noteq> []"
    and "for_each ev conv (video_files ev conv w)
           (emit (Print (Msg_found (length (video_files ev conv w)))) w) = (Raised e, w1)"
  shows "process_all_videos ev conv w = (Raised e, w1)"
  using assms by (simp add: process_all_videos_def)

text \<open>
  Claim C1, as amended. When the intermediate audio file exists at cleanup time and its
  deletion fails, the error is not caught in \<open>process_video\<close>: it leaves
  \<open>process_video\<close>, ends the batch at that video (the videos after it are not
  processed), and reaches the handler of \<open>main\<close>, which reports it as a critical error
  and exits with code 1.
\<close>

theorem deletion_failure_escalates:
  assumes "init ev (model_name a) w0 = (Returned conv, w1)"
    and "\<not> truthy (file_arg a)"
    and "video_files ev conv w1 = pre @ v # rest"
    and "for_each ev conv pre (emit (Print (Msg_found (length (pre @ v # rest)))) w1)
           = (Returned (), w2)"
    and "except_clause v (attempt ev conv v w2) = (r, w3)"
    and "cleanup_refused w3 (audio_path conv v)"
  shows "\<exists>m. process_video ev conv v w2
               = (Raised (Exception m), emit (Unlink (audio_path conv v)) w3)
           \<and> process_all_videos ev conv w1
               = (Raised (Exception m), emit (Unlink (audio_path conv v)) w3)
           \<and> main ev a w0
               = (Raised (SystemExit 1),
                  emit (Print (Msg_critical m)) (emit (Unlink (audio_path conv v)) w3))
           \<and> exit_code (fst (main ev a w0)) = 1"
proof -
  note assms = assms [unfolded shorthand]
  from assms(6) have ex: "path_exists w3 (audio_path conv v)"
    and rf: "refuses w3 (audio_path conv v)" by simp_all
  from finally_refused [OF ex audio_path_nonempty rf, of r] obtain m
    where fin: "finally_clause (audio_path conv v) (r, w3)
                  = (Raised (Exception m), emit (Unlink (audio_path conv v)) w3)" ..
  with process_video_finally [OF assms(5)]
  have pv: "process_video ev conv v w2
              = (Raised (Exception m), emit (Unlink (audio_path conv v)) w3)"
    by simp
  from for_each_stops [OF assms(4) pv, of rest] assms(3)
  have "process_all_videos ev conv w1
          = (Raised (Exception m), emit (Unlink (audio_path conv v)) w3)"
    by (intro process_all_raised) simp_all
  moreover from this main_try_batch [OF assms(1,2)]
  have "main ev a w0 = (Raised (SystemExit 1),
          emit (Print (Msg_critical m)) (emit (Unlink (audio_path conv v)) w3))"
    by (intro main_critical) simp
  moreover from this have "exit_code (fst (main ev a w0)) = 1"
    by (simp add: exit_code_def)
  ultimately show ?thesis using pv by blast
qed

theorem deletion_failure_escalates_witness:
  "\<exists>m. process_all_videos ev_ok conv0 (snd (init ev_ok ''base'' locked_world))
          = (Raised (Exception m),
             emit (Unlink (audio_path conv0 talk))
               (snd (except_clause talk
                  (steps ev_ok conv0 talk
                     (emit (Print (Msg_processing (name talk)))
                        (emit (Print (Msg_found 2)) (snd (init ev_ok ''base'' locked_world))))))))
      \<and> exit_code (fst (main ev_ok args_batch locked_world)) = 1"
proof -
  define W1 where "W1 = snd (init ev_ok ''base'' locked_world)"
  define W2 where "W2 = emit (Print (Msg_found 2)) W1"
  define RW where "RW = except_clause talk
      (steps ev_ok conv0 talk (emit (Print (Msg_processing (name talk))) W2))"
  have "fst (init ev_ok ''base'' locked_world) = Returned conv0" by code_simp
  then have h1: "init ev_ok (model_name args_batch) locked_world = (Returned conv0, W1)"
    by (simp add: W1_def args_batch_def prod_eq_iff)
  have h2: "\<not> truthy (file_arg args_batch)" by (simp add: truthy_def args_batch_def)
  have h3: "video_files ev_ok conv0 W1 = [] @ talk # [[''data'', ''clip.MP4'']]"
    unfolding W1_def by code_simp
  have h4: "for_each ev_ok conv0 []
              (emit (Print (Msg_found (length ([] @ talk # [[''data'', ''clip.MP4'']])))) W1)
            = (Returned (), W2)"
    by (simp add: W2_def)
  have h5: "except_clause talk
              (steps ev_ok conv0 talk (emit (Print (Msg_processing (name talk))) W2))
            = (fst RW, snd RW)"
    by (simp add: RW_def)
  have h6: "path_exists (snd RW) (audio_path conv0 talk)"
    unfolding RW_def W2_def W1_def by code_simp
  have h7: "refuses (snd RW) (audio_path conv0 talk)"
    unfolding RW_def W2_def W1_def by code_simp
  from deletion_failure_escalates [unfolded shorthand, OF h1 h2 h3 h4 h5 conjI [OF h6 h7]]
  show ?thesis unfolding RW_def W2_def W1_def by blast
qed

text \<open>
  Claim C1 as stated fails: with the deletion of \<^verbatim>\<open>output/talk_temp.wav\<close> refused, the
  error leaves \<open>process_video\<close>, the second video of the batch is never started, and
  the exit code is 1, where the same run without the refusal ends with 0.
\<close>

theorem deletion_failure_counterexample:
  "video_files ev_ok conv0 locked_world = [talk, [''data'', ''clip.MP4'']]
   \<and> fst (process_video ev_ok conv0 talk locked_world) = Raised (Exception ''PermissionError'')
   \<and> Print (Msg_processing ''clip.MP4'') \<notin> set (trace (snd (main ev_ok args_batch locked_world)))
   \<and> exit_code (fst (main ev_ok args_batch locked_world)) = 1
   \<and> exit_code (fst (main ev_ok args_batch demo_world)) = 0"
  by code_simp

section \<open>The three steps\<close>

lemma reported_trace [simp]:
  "trace (reported msg f w) =
     trace w @ (case f of Failure m \<Rightarrow> [Print (msg m)] | Interrupt \<Rightarrow> [])"
  by (simp add: reported_def split: fault.splits)

lemma new_events_append: "trace w' = trace w @ xs \<Longrightarrow> new_events w w' = xs"
  by (simp add: new_events_def)

lemma is_kind_simps [simp]:
  "is_open_write (Print x) = False" "is_open_write (Unlink p) = False"
  "is_open_write (Write_audiofile p q) = False" "is_open_write (Transcribe p) = False"
  "is_open_write (Load_model s) = False" "is_open_write (Open_write p t) = True"
  "is_transcribe (Print x) = False" "is_transcribe (Unlink p) = False"
  "is_transcribe (Write_audiofile p q) = False" "is_transcribe (Transcribe p) = True"
  "is_transcribe (Load_model s) = False" "is_transcribe (Open_write p t) = False"
  "is_load_model (Print x) = False" "is_load_model (Unlink p) = False"
  "is_load_model (Write_audiofile p q) = False" "is_load_model (Transcribe p) = False"
  "is_load_model (Load_model s) = True" "is_load_model (Open_write p t) = False"
  by (simp_all add: is_open_write_def is_transcribe_def is_load_model_def)

lemma steps_extract_failed:
  assumes "write_audiofile ev (nodes w) v (audio_path conv v) = Extract_failed f left"
  shows "steps ev conv v w =
           (Raised (raise_of f),
            reported Msg_extract_error f
              (case left of
                 None \<Rightarrow> emit (Write_audiofile v (audio_path conv v))
                           (emit (Print (Msg_extracting (name v))) w)
               | Some wav \<Rightarrow> put (audio_path conv v) (File (Audio wav))
                           (emit (Write_audiofile v (audio_path conv v))
                              (emit (Print (Msg_extracting (name v))) w))))"
  using assms by (simp add: steps_def extract_audio_def Let_def)

lemma steps_transcribe_failed:
  assumes "write_audiofile ev (nodes w) v (audio_path conv v) = Extracted wav"
    and "transcribe ev (model conv)
           (AList.update (audio_path conv v) (File (Audio wav)) (nodes w)) (audio_path conv v)
         = Inl f"
  shows "steps ev conv v w =
           (Raised (raise_of f),
            reported Msg_transcribe_error f
              (emit (Transcribe (audio_path conv v))
                 (emit (Print (Msg_transcribing (name (audio_path conv v))))
                    (emit (Print (Msg_audio_saved (audio_path conv v)))
                       (put (audio_path conv v) (File (Audio wav))
                          (emit (Write_audiofile v (audio_path conv v))
                             (emit (Print (Msg_extracting (name v))) w)))))))"
  using assms by (simp add: steps_def extract_audio_def transcribe_audio_def Let_def)

lemma except_clause_raise_of:
  "except_clause v (Raised (raise_of f), w) =
     (case f of
        Failure m \<Rightarrow> (Returned (), emit (Print (Msg_video_error (name v) m)) w)
      | Interrupt \<Rightarrow> (Raised KeyboardInterrupt, w))"
  by (simp add: except_clause_def raise_of_def split: fault.splits)

lemma except_clause_nodes [simp]: "nodes (snd (except_clause v rw)) = nodes (snd rw)"
  by (auto simp: except_clause_def split: prod.splits result.splits exn.splits)

lemma except_clause_locked [simp]: "locked (snd (except_clause v rw)) = locked (snd rw)"
  by (auto simp: except_clause_def split: prod.splits result.splits exn.splits)

lemma finally_nodes:
  "p \<noteq> a \<Longrightarrow> map_of (nodes (snd (finally_clause a rw))) p = map_of (nodes (snd rw)) p"
  by (auto simp: finally_clause_def unlink_def Let_def delete_conv'
           split: prod.splits option.splits node.splits result.splits)

lemma finally_trace:
  "\<exists>xs. trace (snd (finally_clause a rw)) = trace (snd rw) @ xs
        \<and> set xs \<subseteq> {Unlink a, Print (Msg_temp_deleted (name a))}"
  by (auto simp: finally_clause_def unlink_def Let_def
           split: prod.splits option.splits node.splits result.splits)

lemma process_video_trace:
  assumes "trace (snd (except_clause v
             (steps ev conv v (emit (Print (Msg_processing (name v))) w)))) = trace w @ xs"
  shows "\<exists>ys. trace (snd (process_video ev conv v w)) = trace w @ xs @ ys
             \<and> set ys \<subseteq> {Unlink (audio_path conv v),
                          Print (Msg_temp_deleted (name (audio_path conv v)))}"
  using assms finally_trace [of "audio_path conv v"
      "except_clause v (steps ev conv v (emit (Print (Msg_processing (name v))) w))"]
  by (auto simp: process_video_def)

lemma process_video_nodes:
  assumes "p \<noteq> audio_path conv v"
  shows "map_of (nodes (snd (process_video ev conv v w))) p
         = map_of (nodes (snd (steps ev conv v (emit (Print (Msg_processing (name v))) w)))) p"
  using assms by (simp add: process_video_def finally_nodes)

lemma extract_failed_run:
  assumes "write_audiofile ev (nodes w) v (audio_path conv v) = Extract_failed f left"
  shows "\<exists>xs. trace (snd (process_video ev conv v w)) = trace w @ xs
              \<and> (\<forall>e \<in> set xs. \<not> is_transcribe e \<and> \<not> is_open_write e)"
    and "p \<noteq> audio_path conv v \<Longrightarrow>
           map_of (nodes (snd (process_video ev conv v w))) p = map_of (nodes w) p"
proof -
  let ?w0 = "emit (Print (Msg_processing (name v))) w"
  from assms have "write_audiofile ev (nodes ?w0) v (audio_path conv v) = Extract_failed f left"
    by simp
  note st = steps_extract_failed [OF this]
  have "\<exists>xs. trace (snd (except_clause v (steps ev conv v ?w0))) = trace w @ xs
             \<and> (\<forall>e \<in> set xs. \<not> is_transcribe e \<and> \<not> is_open_write e)"
    by (simp add: st except_clause_raise_of split: fault.splits option.splits)
  then obtain xs where xs: "trace (snd (except_clause v (steps ev conv v ?w0))) = trace w @ xs"
    "\<forall>e \<in> set xs. \<not> is_transcribe e \<and> \<not> is_open_write e" by blast
  from process_video_trace [OF xs(1)] obtain ys
    where "trace (snd (process_video ev conv v w)) = trace w @ xs @ ys"
      "set ys \<subseteq> {Unlink (audio_path conv v), Print (Msg_temp_deleted (name (audio_path conv v)))}"
    by blast
  with xs(2) show "\<exists>xs. trace (snd (process_video ev conv v w)) = trace w @ xs
              \<and> (\<forall>e \<in> set xs. \<not> is_transcribe e \<and> \<not> is_open_write e)"
    by (intro exI [of _ "xs @ ys"]) auto
  show "map_of (nodes (snd (process_video ev conv v w))) p = map_of (nodes w) p"
    if "p \<noteq> audio_path conv v"
    using that by (simp add: process_video_nodes st update_conv' split: option.splits)
qed

lemma transcribe_failed_run:
  assumes "write_audiofile ev (nodes w) v (audio_path conv v) = Extracted wav"
    and "transcribe ev (model conv)
           (AList.update (audio_path conv v) (File (Audio wav)) (nodes w)) (audio_path conv v)
         = Inl f"
  shows "\<exists>xs. trace (snd (process_video ev conv v w)) = trace w @ xs
              \<and> (\<forall>e \<in> set xs. \<not> is_open_write e)"
    and "p \<noteq> audio_path conv v \<Longrightarrow>
           map_of (nodes (snd (process_video ev conv v w))) p = map_of (nodes w) p"
proof -
  let ?w0 = "emit (Print (Msg_processing (name v))) w"
  from assms have "write_audiofile ev (nodes ?w0) v (audio_path conv v) = Extracted wav"
    and "transcribe ev (model conv)
           (AList.update (audio_path conv v) (File (Audio wav)) (nodes ?w0)) (audio_path conv v)
         = Inl f"
    by simp_all
  note st = steps_transcribe_failed [OF this]
  have "\<exists>xs. trace (snd (except_clause v (steps ev conv v ?w0))) = trace w @ xs
             \<and> (\<forall>e \<in> set xs. \<not> is_open_write e)"
    by (simp add: st except_clause_raise_of split: fault.splits)
  then obtain xs where xs: "trace (snd (except_clause v (steps ev conv v ?w0))) = trace w @ xs"
    "\<forall>e \<in> set xs. \<not> is_open_write e" by blast
  from process_video_trace [OF xs(1)] obtain ys
    where "trace (snd (process_video ev conv v w)) = trace w @ xs @ ys"
      "set ys \<subseteq> {Unlink (audio_path conv v), Print (Msg_temp_deleted (name (audio_path conv v)))}"
    by blast
  with xs(2) show "\<exists>xs. trace (snd (process_video ev conv v w)) = trace w @ xs
              \<and> (\<forall>e \<in> set xs. \<not> is_open_write e)"
    by (intro exI [of _ "xs @ ys"]) auto
  show "map_of (nodes (snd (process_video ev conv v w))) p = map_of (nodes w) p"
    if "p \<noteq> audio_path conv v"
    using that by (simp add: process_video_nodes st update_conv')
qed

lemma process_video_survivor:
  assumes "path_exists (snd (process_video ev conv v w)) (audio_path conv v)"
  shows "refuses (snd (process_video ev conv v w)) (audio_path conv v)"
proof -
  obtain r0 w0 where mid: "except_clause v
      (steps ev conv v (emit (Print (Msg_processing (name v))) w)) = (r0, w0)"
    by (cases "except_clause v (steps ev conv v (emit (Print (Msg_processing (name v))) w))")
  then have "process_video ev conv v w = finally_clause (audio_path conv v) (r0, w0)"
    by (simp add: process_video_def)
  moreover obtain r' w' where "finally_clause (audio_path conv v) (r0, w0) = (r', w')"
    by (cases "finally_clause (audio_path conv v) (r0, w0)")
  ultimately show ?thesis
    using assms finally_survivor [of "audio_path conv v" r0 w0 r' w'] by simp
qed

text \<open>
  Claim C5, as amended. When the extraction or the transcription of a video fails, the
  transcript path holds after \<open>process_video\<close> what it held before, the transcript is
  never opened for writing, and the intermediate audio file is gone unless the operating
  system refused to delete it.
\<close>

theorem failed_video_leaves_no_transcript:
  assumes "(\<exists>f left. extraction ev conv v w = Extract_failed f left)
         \<or> (\<exists>wav f. extraction ev conv v w = Extracted wav
               \<and> transcription ev conv v wav w = Inl f)"
  shows "map_of (nodes (snd (process_video ev conv v w))) (text_path conv v)
           = map_of (nodes w) (text_path conv v)
       \<and> (\<forall>e \<in> set (new_events w (snd (process_video ev conv v w))). \<not> is_open_write e)
       \<and> (path_exists (snd (process_video ev conv v w)) (audio_path conv v)
            \<longrightarrow> refuses (snd (process_video ev conv v w)) (audio_path conv v))"
proof -
  note assms = assms [unfolded shorthand]
  have neq: "text_path conv v \<noteq> audio_path conv v" using audio_text_differ by metis
  from assms have "map_of (nodes (snd (process_video ev conv v w))) (text_path conv v)
           = map_of (nodes w) (text_path conv v)"
    using extract_failed_run(2) [OF _ neq] transcribe_failed_run(2) [OF _ _ neq] by blast
  moreover have "\<exists>xs. trace (snd (process_video ev conv v w)) = trace w @ xs
              \<and> (\<forall>e \<in> set xs. \<not> is_open_write e)"
  proof -
    from assms consider
      (ext) f left where
        "write_audiofile ev (nodes w) v (audio_path conv v) = Extract_failed f left"
    | (tra) wav f where
        "write_audiofile ev (nodes w) v (audio_path conv v) = Extracted wav"
        "transcribe ev (model conv)
           (AList.update (audio_path conv v) (File (Audio wav)) (nodes w)) (audio_path conv v)
         = Inl f"
      by blast
    then show ?thesis
    proof cases
      case ext
      from extract_failed_run(1) [OF ext] show ?thesis by blast
    next
      case tra
      from transcribe_failed_run(1) [OF tra] show ?thesis .
    qed
  qed
  then have "\<forall>e \<in> set (new_events w (snd (process_video ev conv v w))). \<not> is_open_write e"
    by (auto simp: new_events_def)
  ultimately show ?thesis using process_video_survivor by blast
qed

theorem failed_video_leaves_no_transcript_witness:
  "map_of (nodes (snd (process_video ev_mute conv0 talk demo_world))) (text_path conv0 talk)
     = map_of (nodes demo_world) (text_path conv0 talk)
   \<and> filter is_open_write
        (new_events demo_world (snd (process_video ev_mute conv0 talk demo_world))) = []
   \<and> \<not> path_exists (snd (process_video ev_mute conv0 talk demo_world)) (audio_path conv0 talk)"
proof -
  have "write_audiofile ev_mute (nodes demo_world) talk (audio_path conv0 talk) = Extracted ''wave''"
    by (simp add: ev_mute_def ev_ok_def)
  moreover have "transcribe ev_mute (model conv0)
      (AList.update (audio_path conv0 talk) (File (Audio ''wave'')) (nodes demo_world))
      (audio_path conv0 talk) = Inl (Failure ''no speech'')"
    by (simp add: ev_mute_def ev_ok_def)
  ultimately have "(\<exists>f left. write_audiofile ev_mute (nodes demo_world) talk
                      (audio_path conv0 talk) = Extract_failed f left)
         \<or> (\<exists>wav f. write_audiofile ev_mute (nodes demo_world) talk (audio_path conv0 talk)
                      = Extracted wav
               \<and> transcribe ev_mute (model conv0)
                    (AList.update (audio_path conv0 talk) (File (Audio wav)) (nodes demo_world))
                    (audio_path conv0 talk) = Inl f)"
    by blast
  note concl = failed_video_leaves_no_transcript [unfolded shorthand, OF this]
  have "\<not> refuses (snd (process_video ev_mute conv0 talk demo_world)) (audio_path conv0 talk)"
    by code_simp
  with concl show ?thesis by (auto simp: filter_empty_conv)
qed

text \<open>
  Claim C5 as stated fails: the transcription of \<^verbatim>\<open>data/talk.mp4\<close> fails, the deletion of
  \<^verbatim>\<open>output/talk_temp.wav\<close> is refused, and the intermediate audio file is not deleted.
\<close>

theorem failed_video_counterexample:
  "Print (Msg_transcribe_error ''no speech'')
     \<in> set (trace (snd (process_video ev_mute conv0 talk locked_world)))
   \<and> path_exists (snd (process_video ev_mute conv0 talk locked_world))
        [''output'', ''talk_temp.wav'']"
  by code_simp





section \<open>Exit codes\<close>

lemma raise_of_no_exit [simp]: "raise_of f \<noteq> SystemExit n"
  by (simp add: raise_of_def split: fault.splits)

lemma extract_audio_no_exit [simp]:
  "extract_audio ev conv v a w \<noteq> (Raised (SystemExit n), w')"
  by (simp add: extract_audio_def Let_def split: extraction.splits)

lemma transcribe_audio_no_exit [simp]:
  "transcribe_audio ev conv a w \<noteq> (Raised (SystemExit n), w')"
  by (simp add: transcribe_audio_def Let_def split: sum.splits)

lemma save_text_no_exit [simp]:
  "save_text ev conv t p w \<noteq> (Raised (SystemExit n), w')"
  by (simp add: save_text_def Let_def split: writing.splits)

lemma steps_no_exit [simp]: "steps ev conv v w \<noteq> (Raised (SystemExit n), w')"
  by (auto simp: steps_def split: result.splits prod.splits)

lemma unlink_no_exit [simp]: "unlink p w \<noteq> (Raised (SystemExit n), w')"
  by (simp add: unlink_def Let_def split: option.splits node.splits)

lemma process_video_no_exit [simp]:
  "process_video ev conv v w \<noteq> (Raised (SystemExit n), w')"
proof -
  obtain r0 w0 where st: "steps ev conv v (emit (Print (Msg_processing (name v))) w) = (r0, w0)"
    by (cases "steps ev conv v (emit (Print (Msg_processing (name v))) w)")
  with steps_no_exit [of ev conv v _ n w0] have "r0 \<noteq> Raised (SystemExit n)" by auto
  then show ?thesis
    by (auto simp: process_video_def st except_clause_def finally_clause_def
             split: result.splits exn.splits prod.splits if_splits)
qed

lemma for_each_no_exit [simp]: "for_each ev conv vs w \<noteq> (Raised (SystemExit n), w')"
  by (induction vs arbitrary: w) (auto split: result.splits prod.splits)

lemma process_all_videos_no_exit [simp]:
  "process_all_videos ev conv w \<noteq> (Raised (SystemExit n), w')"
  by (auto simp: process_all_videos_def split: result.splits prod.splits)

lemma mkdir_no_exit [simp]: "mkdir p w \<noteq> (Raised (SystemExit n), w')"
  by (simp add: mkdir_def split: option.splits node.splits)

lemma init_no_exit [simp]: "init ev nm w \<noteq> (Raised (SystemExit n), w')"
  by (auto simp: init_def Let_def split: sum.splits prod.splits result.splits)

text \<open>The four ways in which the body of the \<^verbatim>\<open>try\<close> of \<open>main\<close> can end.\<close>

lemma main_try_missing:
  assumes "init ev (model_name a) w = (Returned conv, w1)" and "truthy (file_arg a)"
    and "\<not> path_exists w1 (Path (the (file_arg a)))"
  shows "main_try ev a w =
           (Raised (SystemExit 1), emit (Print (Msg_file_not_found (Path (the (file_arg a))))) w1)"
  using assms by (simp add: main_try_def Let_def)

lemma main_try_file:
  assumes "init ev (model_name a) w = (Returned conv, w1)" and "truthy (file_arg a)"
    and "path_exists w1 (Path (the (file_arg a)))"
  shows "main_try ev a w = process_video ev conv (Path (the (file_arg a))) w1"
  using assms by (simp add: main_try_def Let_def)

lemma main_try_init_raised:
  assumes "init ev (model_name a) w = (Raised e, w1)"
  shows "main_try ev a w = (Raised e, w1)"
  using assms by (simp add: main_try_def)





section \<open>Interrupts\<close>






section \<open>A successful video\<close>

lemma steps_ok:
  assumes "write_audiofile ev (nodes w) v (audio_path conv v) = Extracted wav"
    and "transcribe ev (model conv)
           (AList.update (audio_path conv v) (File (Audio wav)) (nodes w)) (audio_path conv v)
         = Inr text"
    and "open_write ev (AList.update (audio_path conv v) (File (Audio wav)) (nodes w))
           (text_path conv v) text = Written"
  shows "steps ev conv v w =
           (Returned (),
            emit (Print (Msg_success (name v)))
              (emit (Print (Msg_text_saved (text_path conv v)))
                 (put (text_path conv v) (File (Text ''utf-8'' text))
                    (emit (Open_write (text_path conv v) text)
                       (emit (Transcribe (audio_path conv v))
                          (emit (Print (Msg_transcribing (name (audio_path conv v))))
                             (emit (Print (Msg_audio_saved (audio_path conv v)))
                                (put (audio_path conv v) (File (Audio wav))
                                   (emit (Write_audiofile v (audio_path conv v))
                                      (emit (Print (Msg_extracting (name v))) w))))))))))"
  using assms
  by (simp add: steps_def extract_audio_def transcribe_audio_def save_text_def Let_def)

lemma init_dirs:
  assumes "init ev nm w = (Returned conv, w1)"
  shows "data_dir conv = [''data'']" and "output_dir conv = [''output'']"
  using assms
  by (auto simp: init_def Let_def split: sum.splits prod.splits result.splits)

lemma stem_by_name: "name v' = name v \<Longrightarrow> stem v' = stem v"
  by (auto simp: stem_def split: option.splits)

text \<open>
  Claim C8. For a converter built by \<open>init\<close> and a video whose three steps succeed, the
  intermediate audio path is \<^verbatim>\<open>output/<stem>_temp.wav\<close> and the transcript path is
  \<^verbatim>\<open>output/<stem>.txt\<close>, both a function of the base name of the video alone; the audio
  is written to the first, the transcript is opened at the second with the decoded text,
  and afterwards the transcript path holds exactly that text, in UTF-8, whatever it held
  before.
\<close>

theorem transcript_of_successful_video:
  assumes "init ev nm w0 = (Returned conv, w1)"
    and "extraction ev conv v w = Extracted wav"
    and "transcription ev conv v wav w = Inr text"
    and "persistence ev conv v wav text w = Written"
  shows "audio_path conv v = [''output'', stem v @ ''_temp.wav'']
       \<and> text_path conv v = [''output'', stem v @ ''.txt'']
       \<and> (\<forall>v'. name v' = name v \<longrightarrow>
             audio_path conv v' = audio_path conv v \<and> text_path conv v' = text_path conv v)
       \<and> Write_audiofile v [''output'', stem v @ ''_temp.wav'']
           \<in> set (new_events w (snd (process_video ev conv v w)))
       \<and> Open_write [''output'', stem v @ ''.txt''] text
           \<in> set (new_events w (snd (process_video ev conv v w)))
       \<and> Print (Msg_success (name v)) \<in> set (new_events w (snd (process_video ev conv v w)))
       \<and> map_of (nodes (snd (process_video ev conv v w))) [''output'', stem v @ ''.txt'']
           = Some (File (Text ''utf-8'' text))"
proof -
  note assms = assms [unfolded shorthand]
  let ?w0 = "emit (Print (Msg_processing (name v))) w"
  let ?xs = "[Print (Msg_processing (name v)), Print (Msg_extracting (name v)),
              Write_audiofile v (audio_path conv v),
              Print (Msg_audio_saved (audio_path conv v)),
              Print (Msg_transcribing (name (audio_path conv v))),
              Transcribe (audio_path conv v), Open_write (text_path conv v) text,
              Print (Msg_text_saved (text_path conv v)), Print (Msg_success (name v))]"
  have "output_dir conv = [''output'']" using assms(1) by (rule init_dirs)
  then have a: "audio_path conv v = [''output'', stem v @ ''_temp.wav'']"
    and t: "text_path conv v = [''output'', stem v @ ''.txt'']"
    by (simp_all add: audio_path_def text_path_def)
  have same: "audio_path conv v' = audio_path conv v \<and> text_path conv v' = text_path conv v"
    if "name v' = name v" for v'
    using stem_by_name [OF that] by (simp add: audio_path_def text_path_def)
  have n: "nodes ?w0 = nodes w" by simp
  note st = steps_ok [where w = ?w0, unfolded n, OF assms(2-4)]
  have neq: "text_path conv v \<noteq> audio_path conv v" using audio_text_differ by metis
  have content: "map_of (nodes (snd (process_video ev conv v w))) (text_path conv v)
          = Some (File (Text ''utf-8'' text))"
    by (simp add: process_video_nodes [OF neq] st update_conv')
  have "trace (snd (except_clause v (steps ev conv v ?w0))) = trace w @ ?xs"
    by (simp add: st except_clause_def)
  from process_video_trace [OF this] obtain ys where
    "trace (snd (process_video ev conv v w)) = trace w @ ?xs @ ys" by blast
  then have "new_events w (snd (process_video ev conv v w)) = ?xs @ ys"
    by (simp add: new_events_def)
  with same content show ?thesis unfolding a t by simp
qed

theorem transcript_of_successful_video_witness:
  "audio_path conv0 talk = [''output'', ''talk_temp.wav'']
   \<and> text_path conv0 talk = [''output'', ''talk.txt'']
   \<and> map_of (nodes rerun_world) [''output'', ''talk.txt''] = Some (File (Text ''utf-8'' ''old''))
   \<and> map_of (nodes (snd (process_video ev_ok conv0 talk rerun_world))) [''output'', ''talk.txt'']
       = Some (File (Text ''utf-8'' ''hello''))"
proof -
  have "fst (init ev_ok ''base'' demo_world) = Returned conv0" by code_simp
  then have h1: "init ev_ok ''base'' demo_world
                   = (Returned conv0, snd (init ev_ok ''base'' demo_world))"
    by (simp add: prod_eq_iff)
  have h2: "write_audiofile ev_ok (nodes rerun_world) talk (audio_path conv0 talk)
              = Extracted ''wave''"
    by (simp add: ev_ok_def)
  have h3: "transcribe ev_ok (model conv0)
              (AList.update (audio_path conv0 talk) (File (Audio ''wave'')) (nodes rerun_world))
              (audio_path conv0 talk) = Inr ''hello''"
    by (simp add: ev_ok_def)
  have h4: "open_write ev_ok
              (AList.update (audio_path conv0 talk) (File (Audio ''wave'')) (nodes rerun_world))
              (text_path conv0 talk) ''hello'' = Written"
    by (simp add: ev_ok_def)
  have st: "stem talk = ''talk''" by code_simp
  have old: "map_of (nodes rerun_world) [''output'', ''talk.txt'']
               = Some (File (Text ''utf-8'' ''old''))"
    by code_simp
  from transcript_of_successful_video [unfolded shorthand, OF h1 h2 h3 h4] old show ?thesis
    by (simp add: st)
qed

section \<open>Loading the model\<close>

lemma loads_nothing_iff:
  "loads_nothing w w' \<longleftrightarrow>
     (\<exists>xs. trace w' = trace w @ xs \<and> (\<forall>e \<in> set xs. \<not> is_load_model e))"
  by (auto simp: loads_nothing_def new_events_def prefix_def)

lemma loads_nothing_refl [simp]: "loads_nothing w w"
  by (simp add: loads_nothing_iff)

lemma loads_nothing_trans:
  "loads_nothing w w' \<Longrightarrow> loads_nothing w' w'' \<Longrightarrow> loads_nothing w w''"
  by (auto simp: loads_nothing_iff)

lemma loads_nothing_emit:
  "\<not> is_load_model e \<Longrightarrow> loads_nothing w w' \<Longrightarrow> loads_nothing w (emit e w')"
  by (auto simp: loads_nothing_iff)

lemma loads_nothing_put: "loads_nothing w w' \<Longrightarrow> loads_nothing w (put p n w')"
  by (simp add: loads_nothing_iff)

lemma loads_nothing_reported: "loads_nothing w w' \<Longrightarrow> loads_nothing w (reported msg f w')"
  by (auto simp: loads_nothing_iff split: fault.splits)

lemma loads_nothing_nodes:
  "loads_nothing w w' \<Longrightarrow> loads_nothing w (w'\<lparr>nodes := nds\<rparr>)"
  by (simp add: loads_nothing_iff)

lemmas loads_nothing_intros =
  loads_nothing_emit loads_nothing_put loads_nothing_reported loads_nothing_nodes

lemma extract_audio_loads_nothing:
  "loads_nothing w0 w \<Longrightarrow> loads_nothing w0 (snd (extract_audio ev conv v a w))"
  by (auto simp: extract_audio_def Let_def intro!: loads_nothing_intros
           split: extraction.splits option.splits)

lemma transcribe_audio_loads_nothing:
  "loads_nothing w0 w \<Longrightarrow> loads_nothing w0 (snd (transcribe_audio ev conv a w))"
  by (auto simp: transcribe_audio_def Let_def intro!: loads_nothing_intros split: sum.splits)

lemma save_text_loads_nothing:
  "loads_nothing w0 w \<Longrightarrow> loads_nothing w0 (snd (save_text ev conv t p w))"
  by (auto simp: save_text_def Let_def intro!: loads_nothing_intros
           split: writing.splits option.splits)

lemma steps_loads_nothing:
  assumes "loads_nothing w0 w"
  shows "loads_nothing w0 (snd (steps ev conv v w))"
proof -
  obtain r1 w1 where e: "extract_audio ev conv v (audio_path conv v) w = (r1, w1)"
    by (cases "extract_audio ev conv v (audio_path conv v) w")
  with extract_audio_loads_nothing [OF assms, of ev conv v "audio_path conv v"]
  have 1: "loads_nothing w0 w1" by simp
  obtain r2 w2 where t: "transcribe_audio ev conv (audio_path conv v) w1 = (r2, w2)"
    by (cases "transcribe_audio ev conv (audio_path conv v) w1")
  with transcribe_audio_loads_nothing [OF 1, of ev conv "audio_path conv v"]
  have 2: "loads_nothing w0 w2" by simp
  have 3: "loads_nothing w0 (snd (save_text ev conv x (text_path conv v) w2))" for x
    using 2 by (rule save_text_loads_nothing)
  show ?thesis
  proof (cases r1)
    case (Raised e1)
    with e 1 show ?thesis by (simp add: steps_def)
  next
    case r1: (Returned u)
    show ?thesis
    proof (cases r2)
      case (Raised e2)
      with e t r1 2 show ?thesis by (simp add: steps_def)
    next
      case (Returned tr)
      obtain r3 w3 where s: "save_text ev conv tr (text_path conv v) w2 = (r3, w3)"
        by (cases "save_text ev conv tr (text_path conv v) w2")
      with 3 [of tr] have "loads_nothing w0 w3" by simp
      with e t r1 Returned s show ?thesis
        by (cases r3) (simp_all add: steps_def loads_nothing_emit)
    qed
  qed
qed

lemma except_clause_loads_nothing:
  "loads_nothing w0 (snd rw) \<Longrightarrow> loads_nothing w0 (snd (except_clause v rw))"
  by (auto simp: except_clause_def intro!: loads_nothing_intros
           split: prod.splits result.splits exn.splits)

lemma finally_clause_loads_nothing:
  "loads_nothing w0 (snd rw) \<Longrightarrow> loads_nothing w0 (snd (finally_clause a rw))"
  by (auto simp: finally_clause_def unlink_def Let_def intro!: loads_nothing_intros
           split: prod.splits result.splits option.splits node.splits)

lemma process_video_loads_nothing:
  assumes "loads_nothing w0 w"
  shows "loads_nothing w0 (snd (process_video ev conv v w))"
  unfolding process_video_def
  by (intro finally_clause_loads_nothing except_clause_loads_nothing steps_loads_nothing
        loads_nothing_emit assms) simp

lemma for_each_loads_nothing:
  "loads_nothing w0 w \<Longrightarrow> loads_nothing w0 (snd (for_each ev conv vs w))"
proof (induction vs arbitrary: w)
  case Nil
  then show ?case by simp
next
  case (Cons v vs)
  obtain r1 w1 where p: "process_video ev conv v w = (r1, w1)"
    by (cases "process_video ev conv v w")
  with process_video_loads_nothing [OF Cons.prems, of ev conv v]
  have "loads_nothing w0 w1" by simp
  with Cons.IH [of w1] p show ?case by (cases r1) simp_all
qed

lemma process_all_videos_loads_nothing:
  assumes "loads_nothing w0 w"
  shows "loads_nothing w0 (snd (process_all_videos ev conv w))"
proof (cases "video_files ev conv w = []")
  case True
  with assms show ?thesis by (simp add: process_all_videos_def loads_nothing_emit)
next
  case False
  let ?w = "emit (Print (Msg_found (length (video_files ev conv w)))) w"
  obtain r1 w1 where f: "for_each ev conv (video_files ev conv w) ?w = (r1, w1)"
    by (cases "for_each ev conv (video_files ev conv w) ?w")
  have "loads_nothing w0 ?w" using assms by (simp add: loads_nothing_emit)
  from for_each_loads_nothing [OF this, of ev conv "video_files ev conv w"] f
  have "loads_nothing w0 w1" by simp
  with False f show ?thesis
    by (cases r1) (simp_all add: process_all_videos_def loads_nothing_emit)
qed

text \<open>What \<open>init\<close> prints before it loads the model, and what it passes to the loader.\<close>

lemma mkdir_trace [simp]: "trace (snd (mkdir p w)) = trace w"
  by (simp add: mkdir_def split: option.splits node.splits)

lemma init_trace:
  "trace (snd (init ev nm w)) =
     trace w
     @ Print (Msg_loading_model nm)
       # (if path_exists w [''whisper'', nm @ ''.pt'']
          then [Print (Msg_local_model_found [''whisper'', nm @ ''.pt''])]
          else [Print (Msg_local_model_missing [''whisper'', nm @ ''.pt'']),
                Print Msg_downloading])
     @ [Load_model (if path_exists w [''whisper'', nm @ ''.pt'']
                    then str_of [''whisper'', nm @ ''.pt''] else nm)]"
proof -
  have m: "trace w4 = trace w3" if "mkdir p w3 = (r, w4)" for p w3 r w4
    using mkdir_trace [of p w3] that by simp
  show ?thesis
    by (auto simp: init_def Let_def dest!: m split: sum.splits prod.splits result.splits)
qed

lemma init_model:
  assumes "init ev nm w = (Returned conv, w1)"
  shows "load_model ev (if path_exists w [''whisper'', nm @ ''.pt'']
                        then str_of [''whisper'', nm @ ''.pt''] else nm) = Inr (model conv)"
  using assms
  by (auto simp: init_def Let_def split: sum.splits prod.splits result.splits if_splits)

lemma main_try_loads_nothing_after_init:
  "loads_nothing (snd (init ev (model_name a) w)) (snd (main_try ev a w))"
proof -
  obtain r w1 where i: "init ev (model_name a) w = (r, w1)"
    by (cases "init ev (model_name a) w")
  show ?thesis
  proof (cases r)
    case (Raised e)
    with i show ?thesis by (simp add: main_try_init_raised)
  next
    case (Returned conv)
    note i' = i [unfolded Returned]
    show ?thesis
    proof (cases "truthy (file_arg a)")
      case False
      with i' show ?thesis
        by (simp add: main_try_batch process_all_videos_loads_nothing)
    next
      case True
      then show ?thesis
        using i'
        by (cases "path_exists w1 (Path (the (file_arg a)))")
           (simp_all add: main_try_file main_try_missing process_video_loads_nothing
              loads_nothing_emit)
    qed
  qed
qed

lemma main_loads_nothing_after_try: "loads_nothing (snd (main_try ev a w)) (snd (main ev a w))"
  by (cases "main_try ev a w")
     (auto simp: main_def intro!: loads_nothing_intros split: result.splits exn.splits)

text \<open>
  Claim C9. \<open>init\<close> asks the loader for \<^verbatim>\<open>whisper/<model>.pt\<close> when that path exists and
  for the model by its name otherwise, and the converter holds the handle that the loader
  returned. In a whole run of \<open>main\<close> the model is loaded exactly once, and only
  prints come before it: no video is touched before the model is loaded.
\<close>

theorem model_loaded_once:
  "(\<forall>conv w1. init ev (model_name a) w = (Returned conv, w1) \<longrightarrow>
      load_model ev (model_source w (model_name a)) = Inr (model conv))
   \<and> (\<exists>pre post.
        new_events w (snd (main ev a w))
          = pre @ Load_model (model_source w (model_name a)) # post
        \<and> (\<forall>e \<in> set pre. \<exists>m. e = Print m)
        \<and> (\<forall>e \<in> set post. \<not> is_load_model e))"
proof -
  let ?local = "[''whisper'', model_name a @ ''.pt'']"
  let ?arg = "if path_exists w ?local then ''whisper/'' @ model_name a @ ''.pt'' else model_name a"
  let ?pre = "Print (Msg_loading_model (model_name a))
       # (if path_exists w ?local
          then [Print (Msg_local_model_found ?local)]
          else [Print (Msg_local_model_missing ?local), Print Msg_downloading])"
  have s: "str_of ?local = ''whisper/'' @ model_name a @ ''.pt''"
    by (simp add: str_of_def)
  have loaded: "load_model ev ?arg = Inr (model conv)"
    if "init ev (model_name a) w = (Returned conv, w1)" for conv w1
    using init_model [OF that] by (simp add: s cong: if_cong)
  have it: "trace (snd (init ev (model_name a) w)) = trace w @ ?pre @ [Load_model ?arg]"
    using init_trace [of ev "model_name a" w] by (simp add: s cong: if_cong)
  from loads_nothing_trans [OF main_try_loads_nothing_after_init main_loads_nothing_after_try,
      of ev a w]
  obtain post where post: "trace (snd (main ev a w)) = trace (snd (init ev (model_name a) w)) @ post"
    "\<forall>e \<in> set post. \<not> is_load_model e"
    by (auto simp: loads_nothing_iff)
  from post(1) it have "new_events w (snd (main ev a w)) = ?pre @ Load_model ?arg # post"
    by (simp add: new_events_def)
  moreover have "\<forall>e \<in> set ?pre. \<exists>m. e = Print m" by simp
  ultimately show ?thesis unfolding shorthand using post(2) loaded by blast
qed

theorem model_loaded_once_witness:
  "load_model ev_ok ''whisper/base.pt'' = Inr (model conv0)
   \<and> (\<exists>pre post.
        new_events cached_world (snd (main ev_ok args_batch cached_world))
          = pre @ Load_model ''whisper/base.pt'' # post
        \<and> (\<forall>e \<in> set pre. \<exists>m. e = Print m)
        \<and> (\<forall>e \<in> set post. \<not> is_load_model e))
   \<and> (\<exists>pre post.
        new_events demo_world (snd (main ev_ok args_batch demo_world))
          = pre @ Load_model ''base'' # post
        \<and> (\<forall>e \<in> set pre. \<exists>m. e = Print m)
        \<and> (\<forall>e \<in> set post. \<not> is_load_model e))"
proof -
  have nm: "model_name args_batch = ''base''" by (simp add: args_batch_def)
  have c: "path_exists cached_world [''whisper'', ''base'' @ ''.pt'']" by code_simp
  have d: "\<not> path_exists demo_world [''whisper'', ''base'' @ ''.pt'']" by code_simp
  have "fst (init ev_ok ''base'' cached_world) = Returned conv0" by code_simp
  then have i: "init ev_ok (model_name args_batch) cached_world
                  = (Returned conv0, snd (init ev_ok ''base'' cached_world))"
    by (simp add: nm prod_eq_iff)
  from model_loaded_once [unfolded shorthand, of ev_ok args_batch cached_world] i c
  have 1: "load_model ev_ok ''whisper/base.pt'' = Inr (model conv0)
     \<and> (\<exists>pre post.
        new_events cached_world (snd (main ev_ok args_batch cached_world))
          = pre @ Load_model ''whisper/base.pt'' # post
        \<and> (\<forall>e \<in> set pre. \<exists>m. e = Print m)
        \<and> (\<forall>e \<in> set post. \<not> is_load_model e))"
    unfolding nm by (simp del: append.simps) auto
  from model_loaded_once [unfolded shorthand, of ev_ok args_batch demo_world] d
  have 2: "\<exists>pre post.
        new_events demo_world (snd (main ev_ok args_batch demo_world))
          = pre @ Load_model ''base'' # post
        \<and> (\<forall>e \<in> set pre. \<exists>m. e = Print m)
        \<and> (\<forall>e \<in> set post. \<not> is_load_model e)"
    unfolding nm by simp
  from 1 2 show ?thesis by blast
qed

section \<open>A named file\<close>

lemma steps_extracts:
  "Write_audiofile v (audio_path conv v) \<in> set (new_events w (snd (steps ev conv v w)))"
  by (auto simp: new_events_def steps_def extract_audio_def transcribe_audio_def save_text_def
        Let_def
      split: extraction.splits sum.splits writing.splits option.splits fault.splits)

lemma in_new_events_trans:
  assumes "e \<in> set (new_events w w')" and "loads_nothing w0 w" and "loads_nothing w' w''"
  shows "e \<in> set (new_events w0 w'')"
proof -
  from assms(2) obtain xs where xs: "trace w = trace w0 @ xs" by (auto simp: loads_nothing_iff)
  from assms(3) obtain ys where ys: "trace w'' = trace w' @ ys" by (auto simp: loads_nothing_iff)
  from xs have "length (trace w0) \<le> length (trace w)" by simp
  then have "set (drop (length (trace w)) (trace w')) \<subseteq> set (drop (length (trace w0)) (trace w'))"
    by (rule set_drop_subset_set_drop)
  with assms(1) have "e \<in> set (drop (length (trace w0)) (trace w'))"
    by (auto simp: new_events_def)
  then show ?thesis by (auto simp: new_events_def ys)
qed

lemma process_video_extracts:
  "Write_audiofile v (audio_path conv v) \<in> set (new_events w (snd (process_video ev conv v w)))"
proof -
  let ?w0 = "emit (Print (Msg_processing (name v))) w"
  have "loads_nothing w ?w0" by (simp add: loads_nothing_emit)
  moreover have "loads_nothing (snd (steps ev conv v ?w0)) (snd (process_video ev conv v w))"
    unfolding process_video_def
    by (intro finally_clause_loads_nothing except_clause_loads_nothing) simp
  ultimately show ?thesis using steps_extracts [of v conv ?w0 ev]
    by (rule in_new_events_trans [rotated])
qed

text \<open>
  Claim C10. When \<^verbatim>\<open>--file\<close> holds a non-empty string whose path exists once the
  converter is built, \<open>main\<close> hands that path to \<open>process_video\<close> and the extraction of
  its audio is attempted; nothing depends on the extension of the path.
\<close>

theorem named_file_is_processed:
  assumes "init ev (model_name a) w = (Returned conv, w1)"
    and "file_arg a = Some s" and "s \<noteq> []"
    and "path_exists w1 (Path s)"
  shows "main_try ev a w = process_video ev conv (Path s) w1
       \<and> Write_audiofile (Path s) (audio_path conv (Path s))
           \<in> set (new_events w1 (snd (main ev a w)))"
proof -
  from assms(2,3) have t: "truthy (file_arg a)" and p: "Path (the (file_arg a)) = Path s"
    by (simp_all add: truthy_def)
  from main_try_file [OF assms(1) t] assms(4)
  have mt: "main_try ev a w = process_video ev conv (Path s) w1" by (simp add: p)
  have "loads_nothing (snd (process_video ev conv (Path s) w1)) (snd (main ev a w))"
    using main_loads_nothing_after_try [of ev a w] by (simp add: mt)
  with process_video_extracts [of "Path s" conv w1 ev]
  have "Write_audiofile (Path s) (audio_path conv (Path s))
           \<in> set (new_events w1 (snd (main ev a w)))"
    by (rule in_new_events_trans [OF _ loads_nothing_refl])
  with mt show ?thesis by simp
qed

theorem named_file_is_processed_witness:
  "suffix_of (Path ''data/notes.txt'') = ''.txt'' \<and> ''.txt'' \<notin> set patterns
   \<and> Write_audiofile [''data'', ''notes.txt''] [''output'', ''notes_temp.wav'']
       \<in> set (trace (snd (main ev_ok args_notes demo_world)))"
proof -
  define W1 where "W1 = snd (init ev_ok ''base'' demo_world)"
  have "fst (init ev_ok ''base'' demo_world) = Returned conv0" by code_simp
  then have h1: "init ev_ok (model_name args_notes) demo_world = (Returned conv0, W1)"
    by (simp add: args_notes_def W1_def prod_eq_iff)
  have h2: "file_arg args_notes = Some ''data/notes.txt''" by (simp add: args_notes_def)
  have h3: "''data/notes.txt'' \<noteq> []" by simp
  have h4: "path_exists W1 (Path ''data/notes.txt'')" unfolding W1_def by code_simp
  have p: "Path ''data/notes.txt'' = [''data'', ''notes.txt'']" by code_simp
  have a: "audio_path conv0 [''data'', ''notes.txt''] = [''output'', ''notes_temp.wav'']"
    by code_simp
  have sx: "suffix_of (Path ''data/notes.txt'') = ''.txt''" by code_simp
  have np: "''.txt'' \<notin> set patterns" by (simp add: patterns_eval)
  from named_file_is_processed [OF h1 h2 h3 h4]
  have "Write_audiofile [''data'', ''notes.txt''] [''output'', ''notes_temp.wav'']
          \<in> set (new_events W1 (snd (main ev_ok args_notes demo_world)))"
    by (simp add: p a)
  then have "Write_audiofile [''data'', ''notes.txt''] [''output'', ''notes_temp.wav'']
          \<in> set (trace (snd (main ev_ok args_notes demo_world)))"
    by (auto simp: new_events_def dest: in_set_dropD)
  with sx np show ?thesis by simp
qed

end
